theory Spec2Isabelle
  imports Main "HOL-Library.Word" "HOL-Library.AList"
begin

unbundle bit_operations_syntax

section \<open>The storefront script: data model\<close>

text \<open>
  The development embeds the state-management core of the storefront script
  (\<^verbatim>\<open>js.for shope.js\<close>): the storage helpers, the digest, registration and login,
  the cart, the per-user order list and the checkout submission handler.  Rendering
  functions only write to the page and are left out; the one page element the handlers
  read back, the hidden token field, is a component of the state.

  Conventions.
  \<^item> A JavaScript string is modelled by \<^typ>\<open>string\<close>, each \<^typ>\<open>char\<close> standing for the
    code unit of the same number (\<open>0\<close> to \<open>255\<close>); \<open>trim\<close>, \<open>toLowerCase\<close> and the
    control-character class follow ECMAScript on that range.
  \<^item> Numbers that the script only adds and multiplies (quantities, prices, totals) are
    \<^typ>\<open>int\<close>; the digest, which the script forces to 32 bits, is a \<^typ>\<open>32 word\<close>.
  \<^item> An object used as a dictionary is modelled by its own properties: the cart, whose
    enumeration order the script observes, by an association list in creation order
    (the order of \<^verbatim>\<open>Object.entries\<close> for keys that are not array indices, as the
    catalogue identifiers are), the user directory and the order book by maps.  What a
    lookup would find further up the prototype chain (\<^verbatim>\<open>cart["constructor"]\<close>) is
    outside the model: keys are taken not to name a property of \<^verbatim>\<open>Object.prototype\<close>.
  \<^item> A function that can throw returns the thrown error beside the state it leaves
    behind, so that what happened before the \<open>throw\<close> stays visible.
  \<^item> Values the script obtains from its environment (random numbers, the clock, the
    form fields) are arguments of the handler that reads them.
\<close>

subsection \<open>Strings\<close>

definition charCode :: "char \<Rightarrow> nat" where
  "charCode c = of_char c"

text \<open>White space and line terminators of ECMAScript among the code units below 256.\<close>

definition isWhiteSpace :: "char \<Rightarrow> bool" where
  "isWhiteSpace c = (charCode c \<in> {0x09, 0x0A, 0x0B, 0x0C, 0x0D, 0x20, 0xA0})"

definition trim :: "string \<Rightarrow> string" where
  "trim str = rev (dropWhile isWhiteSpace (rev (dropWhile isWhiteSpace str)))"

text \<open>Lower-casing: \<open>A\<close>--\<open>Z\<close> and the Latin-1 capitals (all of \<open>0xC0\<close>--\<open>0xDE\<close> but
  the multiplication sign \<open>0xD7\<close>) move up by \<open>0x20\<close>.\<close>

definition lowerChar :: "char \<Rightarrow> char" where
  "lowerChar c =
     (let n = charCode c in
      if (0x41 \<le> n \<and> n \<le> 0x5A) \<or> (0xC0 \<le> n \<and> n \<le> 0xD6) \<or> (0xD8 \<le> n \<and> n \<le> 0xDE)
      then char_of (n + 0x20) else c)"

definition toLowerCase :: "string \<Rightarrow> string" where
  "toLowerCase str = map lowerChar str"

text \<open>The class \<^verbatim>\<open>[\u0000-\u001F\u007F-\u009F]\<close> of \<open>sanitizeInput\<close> (lines 560--563).\<close>

definition isControl :: "char \<Rightarrow> bool" where
  "isControl c = (charCode c \<le> 0x1F \<or> (0x7F \<le> charCode c \<and> charCode c \<le> 0x9F))"

definition sanitizeInput :: "string \<Rightarrow> string" where
  "sanitizeInput str = filter (\<lambda>c. \<not> isControl c) (trim str)"

text \<open>\<^verbatim>\<open>n.toString(16)\<close> for a non-negative integer: lower-case digits, no leading
  zero.\<close>

definition hexDigit :: "nat \<Rightarrow> char" where
  "hexDigit d = ''0123456789abcdef'' ! d"

function toString16 :: "nat \<Rightarrow> string" where
  "toString16 n = (if n < 16 then [hexDigit n] else toString16 (n div 16) @ [hexDigit (n mod 16)])"
  by pat_completeness auto
termination
  by (relation "measure id") auto

declare toString16.simps [simp del]

subsection \<open>Product catalogue\<close>

text \<open>Lines 2--12.\<close>

record product =
  product_id :: string
  product_name :: string
  product_category :: string
  product_price :: int

text \<open>The names of \<open>p6\<close> and \<open>p8\<close> hold the non-breaking hyphen U+2011, which is no
  single code unit below 256; it stands here as its three UTF-8 bytes.  Names are
  payload only: no modelled function inspects them.\<close>

definition PRODUCTS :: "product list" where
  "PRODUCTS =
    [\<lparr>product_id = ''p1'', product_name = ''Wireless Headphones'',
      product_category = ''electronics'', product_price = 3999\<rparr>,
     \<lparr>product_id = ''p2'', product_name = ''Mechanical Keyboard'',
      product_category = ''electronics'', product_price = 5499\<rparr>,
     \<lparr>product_id = ''p3'', product_name = ''Smartwatch Classic'',
      product_category = ''electronics'', product_price = 6999\<rparr>,
     \<lparr>product_id = ''p4'', product_name = ''Premium Hoodie'',
      product_category = ''fashion'', product_price = 1999\<rparr>,
     \<lparr>product_id = ''p5'', product_name = ''Running Shoes'',
      product_category = ''fashion'', product_price = 2999\<rparr>,
     \<lparr>product_id = ''p6'',
      product_name = ''Cotton T'' @ [CHR 0xE2, CHR 0x80, CHR 0x91] @ ''Shirt'',
      product_category = ''fashion'', product_price = 899\<rparr>,
     \<lparr>product_id = ''p7'', product_name = ''Table Lamp'',
      product_category = ''home'', product_price = 1299\<rparr>,
     \<lparr>product_id = ''p8'',
      product_name = ''Non'' @ [CHR 0xE2, CHR 0x80, CHR 0x91] @ ''stick Pan Set'',
      product_category = ''home'', product_price = 2499\<rparr>,
     \<lparr>product_id = ''p9'', product_name = ''Wall Art Frame'',
      product_category = ''home'', product_price = 799\<rparr>]"

subsection \<open>Storage helpers\<close>

text \<open>
  Lines 22--37.  \<open>localStorage\<close> maps keys to strings.  \<^verbatim>\<open>JSON.parse\<close> and \<^verbatim>\<open>JSON.stringify\<close>
  belong to the platform, not to the script, so the helpers take them as arguments:
  \<open>JSON_parse\<close> yields \<open>None\<close> where \<^verbatim>\<open>JSON.parse\<close> throws.  The test \<^verbatim>\<open>raw ? ... : ...\<close>
  of \<open>loadState\<close> sends both a missing item and the empty string to the fallback.
\<close>

type_synonym raw_storage = "string \<rightharpoonup> string"

definition safeParse :: "(string \<Rightarrow> 'v option) \<Rightarrow> string \<Rightarrow> 'v \<Rightarrow> 'v" where
  "safeParse JSON_parse json fallback =
     (case JSON_parse json of Some v \<Rightarrow> v | None \<Rightarrow> fallback)"

definition loadState :: "(string \<Rightarrow> 'v option) \<Rightarrow> raw_storage \<Rightarrow> string \<Rightarrow> 'v \<Rightarrow> 'v" where
  "loadState JSON_parse ls key fallback =
     (case ls key of
        None \<Rightarrow> fallback
      | Some raw \<Rightarrow> if raw \<noteq> [] then safeParse JSON_parse raw fallback else fallback)"

definition saveState :: "('v \<Rightarrow> string) \<Rightarrow> raw_storage \<Rightarrow> string \<Rightarrow> 'v \<Rightarrow> raw_storage" where
  "saveState JSON_stringify ls key v = ls(key \<mapsto> JSON_stringify v)"

subsection \<open>Digest\<close>

text \<open>Lines 40--47.  \<^verbatim>\<open>hash = (hash * 33) ^ str.charCodeAt(i)\<close>: the operands of \<open>^\<close> are taken modulo
  \<open>2^32\<close>, and \<open>hash * 33\<close> is below \<open>2^53\<close> in absolute value, hence exact; the loop is
  therefore 32-bit arithmetic.  \<^verbatim>\<open>hash >>> 0\<close> reads the result as unsigned.\<close>

definition hashString :: "string \<Rightarrow> string" where
  "hashString str =
     toString16 (unat (foldl (\<lambda>hash c. (hash * 33) XOR word_of_nat (charCode c)) (5381 :: 32 word) str))"

subsection \<open>Application state\<close>

record user =
  passwordHash :: string

text \<open>An element of \<open>cartItemsWithDetails()\<close>: the product's fields, \<open>qty\<close> and
  \<open>lineTotal\<close>.\<close>

record cart_line =
  line_id :: string
  line_name :: string
  line_category :: string
  line_price :: int
  line_qty :: int
  lineTotal :: int

record cart_totals =
  items :: "cart_line list"
  subtotal :: int

record order_item =
  item_id :: string
  item_name :: string
  item_qty :: int
  item_price :: int

record shipping =
  ship_name :: string
  ship_address :: string
  ship_city :: string
  ship_zip :: string
  ship_phone :: string

record order =
  order_id :: int
  order_createdAt :: int
  order_total :: int
  order_items :: "order_item list"
  order_shipping :: shipping

text \<open>
  The four blobs of \<open>localStorage\<close>, each kept as the value its JSON text decodes to;
  \<open>None\<close> stands for a key with no item or with text that does not parse, which
  \<open>loadState\<close> answers with its fallback.  \<open>stored_USER\<close> distinguishes the stored
  \<^verbatim>\<open>null\<close> that \<open>logoutUser\<close> writes (\<open>Some None\<close>) from a stored address.
\<close>

record storage =
  stored_USER :: "string option option"
  stored_USERS :: "(string \<rightharpoonup> user) option"
  stored_CART :: "(string \<times> int) list option"
  stored_ORDERS :: "(string \<rightharpoonup> order list) option"

text \<open>\<open>loadState\<close> on a decoded blob.\<close>

definition loadBlob :: "'a option \<Rightarrow> 'a \<Rightarrow> 'a" where
  "loadBlob blob fallback = (case blob of None \<Rightarrow> fallback | Some v \<Rightarrow> v)"

text \<open>The module-level variables, the hidden form field \<open>csrfInput\<close> and the store.\<close>

record app_state =
  currentUser :: "string option"
  users :: "string \<rightharpoonup> user"
  cart :: "(string \<times> int) list"
  csrfToken :: string
  csrfInput :: string
  localStorage :: storage

datatype error = Error string

datatype outcome = Returned | Threw error

definition DuplicateUser :: error where
  "DuplicateUser = Error ''User already exists''"

definition InvalidCredentials :: error where
  "InvalidCredentials = Error ''Invalid credentials''"

section \<open>Operations\<close>

subsection \<open>Authentication\<close>

text \<open>Lines 53--87.  The calls of \<open>updateUserUI\<close> and \<open>loadOrdersUI\<close> only render.\<close>

definition setCurrentUser :: "string \<Rightarrow> app_state \<Rightarrow> app_state" where
  "setCurrentUser email s =
     s\<lparr>currentUser := Some email,
       localStorage := (localStorage s)\<lparr>stored_USER := Some (Some email)\<rparr>\<rparr>"

definition registerUser :: "string \<Rightarrow> string \<Rightarrow> app_state \<Rightarrow> outcome \<times> app_state" where
  "registerUser email password s =
     (let normalizedEmail = toLowerCase (trim email) in
      if users s normalizedEmail \<noteq> None then (Threw (Error ''User already exists''), s)
      else
        let hash = hashString password;
            users' = (users s)(normalizedEmail \<mapsto> \<lparr>passwordHash = hash\<rparr>)
        in (Returned,
            s\<lparr>users := users',
              localStorage := (localStorage s)\<lparr>stored_USERS := Some users'\<rparr>\<rparr>))"

definition loginUser :: "string \<Rightarrow> string \<Rightarrow> app_state \<Rightarrow> outcome \<times> app_state" where
  "loginUser email password s =
     (let normalizedEmail = toLowerCase (trim email) in
      case users s normalizedEmail of
        None \<Rightarrow> (Threw (Error ''Invalid credentials''), s)
      | Some user \<Rightarrow>
          let hash = hashString password in
          if passwordHash user \<noteq> hash then (Threw (Error ''Invalid credentials''), s)
          else (Returned, setCurrentUser normalizedEmail s))"

definition logoutUser :: "app_state \<Rightarrow> app_state" where
  "logoutUser s =
     s\<lparr>currentUser := None,
       localStorage := (localStorage s)\<lparr>stored_USER := Some None\<rparr>\<rparr>"

text \<open>The test \<^verbatim>\<open>!currentUser\<close> fails for \<^verbatim>\<open>null\<close> and for the empty string alike.\<close>

definition loggedIn :: "app_state \<Rightarrow> bool" where
  "loggedIn s = (case currentUser s of None \<Rightarrow> False | Some email \<Rightarrow> email \<noteq> [])"

subsection \<open>Token\<close>

text \<open>Lines 90--94.  The argument is the content of the \<^verbatim>\<open>Uint32Array(4)\<close> after
  \<^verbatim>\<open>crypto.getRandomValues\<close>.\<close>

type_synonym random_values = "32 word \<times> 32 word \<times> 32 word \<times> 32 word"

fun generateCsrfToken :: "random_values \<Rightarrow> string" where
  "generateCsrfToken (a, b, c, d) = concat (map (\<lambda>n. toString16 (unat n)) [a, b, c, d])"

declare generateCsrfToken.simps [simp del]

subsection \<open>Start-up\<close>

text \<open>The initialisers of the module-level variables (lines 50, 51, 96 and 99), and the
  \<^verbatim>\<open>DOMContentLoaded\<close> listener's \<^verbatim>\<open>csrfInput.value = csrfToken\<close> (line 570).\<close>

definition initialState :: "random_values \<Rightarrow> storage \<Rightarrow> app_state" where
  "initialState rnd st =
     \<lparr>currentUser = loadBlob (stored_USER st) None,
      users = loadBlob (stored_USERS st) Map.empty,
      cart = loadBlob (stored_CART st) [],
      csrfToken = generateCsrfToken rnd,
      csrfInput = generateCsrfToken rnd,
      localStorage = st\<rparr>"

definition emptyStorage :: storage where
  "emptyStorage =
     \<lparr>stored_USER = None, stored_USERS = None, stored_CART = None, stored_ORDERS = None\<rparr>"

subsection \<open>Cart\<close>

text \<open>Lines 101--139.  \<^verbatim>\<open>cart[productId] || 0\<close> is \<open>0\<close> for a missing entry and for a stored \<open>0\<close>;
  \<^verbatim>\<open>!cart[productId]\<close> holds in the same two cases.\<close>

definition addToCart :: "string \<Rightarrow> app_state \<Rightarrow> app_state" where
  "addToCart productId s =
     (let cart' = AList.update productId
                    ((case map_of (cart s) productId of
                        None \<Rightarrow> 0
                      | Some q \<Rightarrow> if q \<noteq> 0 then q else 0) + 1) (cart s)
      in s\<lparr>cart := cart',
           localStorage := (localStorage s)\<lparr>stored_CART := Some cart'\<rparr>\<rparr>)"

definition updateCartItem :: "string \<Rightarrow> int \<Rightarrow> app_state \<Rightarrow> app_state" where
  "updateCartItem productId delta s =
     (case map_of (cart s) productId of
        None \<Rightarrow> s
      | Some q \<Rightarrow>
          if q = 0 then s
          else
            let newQty = q + delta;
                cart' = (if newQty \<le> 0 then AList.delete productId (cart s)
                         else AList.update productId newQty (cart s))
            in s\<lparr>cart := cart',
                 localStorage := (localStorage s)\<lparr>stored_CART := Some cart'\<rparr>\<rparr>)"

definition clearCart :: "app_state \<Rightarrow> app_state" where
  "clearCart s = s\<lparr>cart := [], localStorage := (localStorage s)\<lparr>stored_CART := Some []\<rparr>\<rparr>"

definition cartItemsWithDetails :: "(string \<times> int) list \<Rightarrow> cart_line list" where
  "cartItemsWithDetails c =
     List.map_filter
       (\<lambda>(id', qty).
          case find (\<lambda>p. product_id p = id') PRODUCTS of
            None \<Rightarrow> None
          | Some product \<Rightarrow>
              Some \<lparr>line_id = product_id product, line_name = product_name product,
                    line_category = product_category product,
                    line_price = product_price product,
                    line_qty = qty, lineTotal = product_price product * qty\<rparr>)
       c"

definition cartTotals :: "(string \<times> int) list \<Rightarrow> cart_totals" where
  "cartTotals c =
     (let items' = cartItemsWithDetails c;
          subtotal' = foldl (\<lambda>sum item. sum + lineTotal item) 0 items'
      in \<lparr>items = items', subtotal = subtotal'\<rparr>)"

subsection \<open>Orders\<close>

text \<open>Lines 142--155.  \<open>unshift\<close> puts the order in front of the list.\<close>

definition loadOrders :: "app_state \<Rightarrow> order list" where
  "loadOrders s =
     (let allOrders = loadBlob (stored_ORDERS (localStorage s)) Map.empty in
      if \<not> loggedIn s then []
      else case allOrders (the (currentUser s)) of None \<Rightarrow> [] | Some userOrders \<Rightarrow> userOrders)"

definition saveOrder :: "order \<Rightarrow> app_state \<Rightarrow> app_state" where
  "saveOrder order' s =
     (let allOrders = loadBlob (stored_ORDERS (localStorage s)) Map.empty in
      if \<not> loggedIn s then s
      else
        let userOrders = (case allOrders (the (currentUser s)) of None \<Rightarrow> [] | Some os \<Rightarrow> os);
            allOrders' = allOrders(the (currentUser s) \<mapsto> order' # userOrders)
        in s\<lparr>localStorage := (localStorage s)\<lparr>stored_ORDERS := Some allOrders'\<rparr>\<rparr>)"

subsection \<open>Checkout\<close>

text \<open>
  Lines 417--427 and 434--486.  What a submission reads from outside the state: the verdict of
  \<^verbatim>\<open>checkoutForm.checkValidity()\<close>, the five shipping fields, the value of
  \<^verbatim>\<open>Math.floor(Math.random() * 1_000_000)\<close>, the clock and the random words for the
  next token.
\<close>

record submission =
  form_valid :: bool
  field_name :: string
  field_address :: string
  field_city :: string
  field_zip :: string
  field_phone :: string
  random_id :: int
  clock :: int
  entropy :: random_values

text \<open>The alerts of the checkout handlers, in the order of the source:
  ``Please login before placing an order.'', ``Session expired. Please try again.'',
  ``Please fill all required fields correctly.'', ``Cart is empty.'' and
  ``Payment successful (dummy). Order placed!''.\<close>

datatype notice = PleaseLogin | SessionExpired | InvalidFields | CartIsEmpty | OrderPlaced

text \<open>The order literal of the submit listener.\<close>

definition newOrder :: "submission \<Rightarrow> cart_totals \<Rightarrow> order" where
  "newOrder e t =
     \<lparr>order_id = random_id e,
      order_createdAt = clock e,
      order_total = subtotal t,
      order_items =
        map (\<lambda>l. \<lparr>item_id = line_id l, item_name = line_name l,
                   item_qty = line_qty l, item_price = line_price l\<rparr>) (items t),
      order_shipping =
        \<lparr>ship_name = sanitizeInput (field_name e),
         ship_address = sanitizeInput (field_address e),
         ship_city = sanitizeInput (field_city e),
         ship_zip = sanitizeInput (field_zip e),
         ship_phone = sanitizeInput (field_phone e)\<rparr>\<rparr>"

definition checkoutForm_submit :: "submission \<Rightarrow> app_state \<Rightarrow> notice \<times> app_state" where
  "checkoutForm_submit e s =
     (if \<not> loggedIn s then (PleaseLogin, s)
      else
        let formToken = csrfInput s in
        if formToken = [] \<or> formToken \<noteq> csrfToken s then
          (let token = generateCsrfToken (entropy e)
           in (SessionExpired, s\<lparr>csrfToken := token, csrfInput := token\<rparr>))
        else if \<not> form_valid e then (InvalidFields, s)
        else
          let t = cartTotals (cart s) in
          if items t = [] then (CartIsEmpty, s)
          else
            let s1 = saveOrder (newOrder e t) s;
                s2 = clearCart s1;
                token = generateCsrfToken (entropy e)
            in (OrderPlaced, s2\<lparr>csrfToken := token, csrfInput := token\<rparr>))"

text \<open>The click on the checkout button, which opens the form.\<close>

definition btnCheckout_click :: "random_values \<Rightarrow> app_state \<Rightarrow> notice option \<times> app_state" where
  "btnCheckout_click rnd s =
     (if items (cartTotals (cart s)) = [] then (Some CartIsEmpty, s)
      else
        let token = generateCsrfToken rnd
        in (None, s\<lparr>csrfToken := token, csrfInput := token\<rparr>))"

subsection \<open>Sequences of calls\<close>

text \<open>A run of the script after start-up is a sequence of calls of its state-changing
  functions and of its two checkout listeners, in any order.  A call that throws leaves
  the state it had reached.\<close>

datatype call =
    RegisterUser string string
  | LoginUser string string
  | LogoutUser
  | SetCurrentUser string
  | AddToCart string
  | UpdateCartItem string int
  | ClearCart
  | SaveOrder order
  | CheckoutClick random_values
  | CheckoutSubmit submission

fun exec :: "call \<Rightarrow> app_state \<Rightarrow> app_state" where
  "exec (RegisterUser email password) s = snd (registerUser email password s)"
| "exec (LoginUser email password) s = snd (loginUser email password s)"
| "exec LogoutUser s = logoutUser s"
| "exec (SetCurrentUser email) s = setCurrentUser email s"
| "exec (AddToCart productId) s = addToCart productId s"
| "exec (UpdateCartItem productId delta) s = updateCartItem productId delta s"
| "exec ClearCart s = clearCart s"
| "exec (SaveOrder order') s = saveOrder order' s"
| "exec (CheckoutClick rnd) s = snd (btnCheckout_click rnd s)"
| "exec (CheckoutSubmit e) s = snd (checkoutForm_submit e s)"

fun run :: "call list \<Rightarrow> app_state \<Rightarrow> app_state" where
  "run [] s = s"
| "run (c # cs) s = run cs (exec c s)"

text \<open>The line that \<open>cartItemsWithDetails\<close> builds from a product and a quantity,
  named for the statements below.\<close>

definition catalogue_line :: "product \<Rightarrow> int \<Rightarrow> cart_line" where
  "catalogue_line p q =
     \<lparr>line_id = product_id p, line_name = product_name p,
      line_category = product_category p, line_price = product_price p,
      line_qty = q, lineTotal = product_price p * q\<rparr>"

text \<open>Every stored quantity is strictly positive.\<close>

definition quantities_positive :: "(string \<times> int) list \<Rightarrow> bool" where
  "quantities_positive c = list_all (\<lambda>(productId, q). 0 < q) c"

subsection \<open>Sample inputs\<close>

text \<open>A first visit, with nothing stored; the state of a shopper who has registered as
  \<^verbatim>\<open>" Alice@Example.COM "\<close> through the form (which calls \<open>registerUser\<close> and then
  \<open>setCurrentUser\<close>) and has put \<open>p1\<close> twice and \<open>p4\<close> once into the cart; and a filled-in
  checkout form.\<close>

definition freshState :: app_state where
  "freshState = initialState (1, 2, 3, 4) emptyStorage"

definition shopperState :: app_state where
  "shopperState =
     \<lparr>currentUser = Some ''alice@example.com'',
      users = [''alice@example.com'' \<mapsto> \<lparr>passwordHash = hashString ''secret''\<rparr>],
      cart = [(''p1'', 2), (''p4'', 1)],
      csrfToken = generateCsrfToken (1, 2, 3, 4),
      csrfInput = generateCsrfToken (1, 2, 3, 4),
      localStorage =
        \<lparr>stored_USER = Some (Some ''alice@example.com''),
         stored_USERS = Some [''alice@example.com'' \<mapsto> \<lparr>passwordHash = hashString ''secret''\<rparr>],
         stored_CART = Some [(''p1'', 2), (''p4'', 1)],
         stored_ORDERS = None\<rparr>\<rparr>"

definition sampleSubmission :: submission where
  "sampleSubmission =
     \<lparr>form_valid = True, field_name = '' Ada Lovelace '', field_address = ''12 Analytical Row'',
      field_city = ''London'', field_zip = ''N1 9GU'', field_phone = ''020 7946 0000'',
      random_id = 424242, clock = 1700000000000, entropy = (5, 6, 7, 8)\<rparr>"

text \<open>A fragment of JSON to run the storage helpers on: the literals \<^verbatim>\<open>null\<close>,
  \<^verbatim>\<open>true\<close> and \<^verbatim>\<open>false\<close>, read as \<^typ>\<open>bool option\<close>.\<close>

definition literal_stringify :: "bool option \<Rightarrow> string" where
  "literal_stringify v =
     (case v of None \<Rightarrow> ''null'' | Some b \<Rightarrow> if b then ''true'' else ''false'')"

definition literal_parse :: "string \<Rightarrow> bool option option" where
  "literal_parse json =
     (if json = ''null'' then Some None
      else if json = ''true'' then Some (Some True)
      else if json = ''false'' then Some (Some False)
      else None)"

section \<open>Properties\<close>

subsection \<open>Storage helpers\<close>

text \<open>
  Claim C8 (storage round trip).  \<^verbatim>\<open>JSON.parse\<close> rejects the empty text.  Under that
  platform fact, for every key and every value \<open>v\<close> that the platform's JSON functions
  serialise faithfully (\<open>JSON_parse (JSON_stringify v) = Some v\<close>), \<open>saveState\<close> followed by
  \<open>loadState\<close> answers \<open>v\<close>, whatever the fallback; and for every key with no item, or with
  an item that does not parse, \<open>loadState\<close> answers the fallback.  \<open>loadState\<close> has no
  error result: the one exception of its body, that of \<^verbatim>\<open>JSON.parse\<close>, ends in
  \<open>safeParse\<close>.
\<close>

theorem storage_round_trip:
  assumes "JSON_parse [] = None"
  shows "(JSON_parse (JSON_stringify v) = Some v \<longrightarrow>
            loadState JSON_parse (saveState JSON_stringify ls key v) key fallback = v)
       \<and> (ls key = None \<or> (\<exists>raw. ls key = Some raw \<and> JSON_parse raw = None) \<longrightarrow>
            loadState JSON_parse ls key fallback = fallback)"
proof (intro conjI impI)
  assume rt: "JSON_parse (JSON_stringify v) = Some v"
  with assms have "JSON_stringify v \<noteq> []" by auto
  with rt show "loadState JSON_parse (saveState JSON_stringify ls key v) key fallback = v"
    by (simp add: loadState_def saveState_def safeParse_def)
next
  assume "ls key = None \<or> (\<exists>raw. ls key = Some raw \<and> JSON_parse raw = None)"
  then show "loadState JSON_parse ls key fallback = fallback"
    by (auto simp: loadState_def safeParse_def)
qed

theorem storage_round_trip_witness:
  "literal_parse [] = None
   \<and> literal_parse (literal_stringify (Some True)) = Some (Some True)
   \<and> loadState literal_parse
        (saveState literal_stringify Map.empty ''secureShop.currentUser'' (Some True))
        ''secureShop.currentUser'' None = Some True
   \<and> loadState literal_parse Map.empty ''secureShop.cart'' (Some False) = Some False
   \<and> literal_parse ''{oops'' = None
   \<and> loadState literal_parse [''secureShop.cart'' \<mapsto> ''{oops''] ''secureShop.cart'' (Some False)
       = Some False"
proof -
  have e: "literal_parse [] = None"
    by (simp add: literal_parse_def)
  have r: "literal_parse (literal_stringify (Some True)) = Some (Some True)"
    by (simp add: literal_parse_def literal_stringify_def)
  have b: "literal_parse ''{oops'' = None"
    by (simp add: literal_parse_def)
  from storage_round_trip [of literal_parse literal_stringify "Some True" Map.empty
      "''secureShop.currentUser''" None]
    storage_round_trip [of literal_parse literal_stringify "Some True" Map.empty
      "''secureShop.cart''" "Some False"]
    storage_round_trip [of literal_parse literal_stringify "Some True"
      "[''secureShop.cart'' \<mapsto> ''{oops'']" "''secureShop.cart''" "Some False"]
    e r b
  show ?thesis by simp
qed

subsection \<open>Sample states\<close>

lemma fresh_fields:
  "currentUser freshState = None"
  "users freshState = Map.empty"
  "cart freshState = []"
  "csrfToken freshState = generateCsrfToken (1, 2, 3, 4)"
  "csrfInput freshState = generateCsrfToken (1, 2, 3, 4)"
  "localStorage freshState = emptyStorage"
  by (simp_all add: freshState_def initialState_def emptyStorage_def loadBlob_def)

lemma shopper_fields:
  "currentUser shopperState = Some ''alice@example.com''"
  "users shopperState = [''alice@example.com'' \<mapsto> \<lparr>passwordHash = hashString ''secret''\<rparr>]"
  "cart shopperState = [(''p1'', 2), (''p4'', 1)]"
  "csrfToken shopperState = generateCsrfToken (1, 2, 3, 4)"
  "csrfInput shopperState = generateCsrfToken (1, 2, 3, 4)"
  "stored_ORDERS (localStorage shopperState) = None"
  "stored_CART (localStorage shopperState) = Some [(''p1'', 2), (''p4'', 1)]"
  by (simp_all add: shopperState_def)

lemma normalized_alice: "toLowerCase (trim '' Alice@Example.COM '') = ''alice@example.com''"
  by code_simp

lemma registerUser_cases:
  "registerUser email password s =
     (if users s (toLowerCase (trim email)) \<noteq> None then (Threw DuplicateUser, s)
      else (Returned,
            s\<lparr>users := (users s)(toLowerCase (trim email) \<mapsto> \<lparr>passwordHash = hashString password\<rparr>),
              localStorage := (localStorage s)
                \<lparr>stored_USERS :=
                   Some ((users s)(toLowerCase (trim email) \<mapsto> \<lparr>passwordHash = hashString password\<rparr>))\<rparr>\<rparr>))"
  by (simp add: registerUser_def Let_def DuplicateUser_def)

lemma loginUser_cases:
  "loginUser email password s =
     (case users s (toLowerCase (trim email)) of
        None \<Rightarrow> (Threw InvalidCredentials, s)
      | Some user \<Rightarrow>
          if passwordHash user \<noteq> hashString password then (Threw InvalidCredentials, s)
          else (Returned, setCurrentUser (toLowerCase (trim email)) s))"
  by (simp add: loginUser_def Let_def InvalidCredentials_def split: option.splits)

text \<open>The shopper's state is the one the script reaches from a first visit by the calls
  of the registration form and three clicks on ``Add to cart''.\<close>

lemma shopper_reachable:
  "run [RegisterUser '' Alice@Example.COM '' ''secret'', SetCurrentUser ''alice@example.com'',
        AddToCart ''p1'', AddToCart ''p1'', AddToCart ''p4''] freshState = shopperState"
proof -
  let ?u = "[''alice@example.com'' \<mapsto> \<lparr>passwordHash = hashString ''secret''\<rparr>]"
  let ?t = "generateCsrfToken (1, 2, 3, 4)"
  let ?s1 = "\<lparr>currentUser = None, users = ?u, cart = [], csrfToken = ?t, csrfInput = ?t,
      localStorage = \<lparr>stored_USER = None, stored_USERS = Some ?u, stored_CART = None,
        stored_ORDERS = None\<rparr>\<rparr>"
  let ?s2 = "\<lparr>currentUser = Some ''alice@example.com'', users = ?u, cart = [], csrfToken = ?t,
      csrfInput = ?t,
      localStorage = \<lparr>stored_USER = Some (Some ''alice@example.com''), stored_USERS = Some ?u,
        stored_CART = None, stored_ORDERS = None\<rparr>\<rparr>"
  let ?s3 = "\<lparr>currentUser = Some ''alice@example.com'', users = ?u, cart = [(''p1'', 1)],
      csrfToken = ?t, csrfInput = ?t,
      localStorage = \<lparr>stored_USER = Some (Some ''alice@example.com''), stored_USERS = Some ?u,
        stored_CART = Some [(''p1'', 1)], stored_ORDERS = None\<rparr>\<rparr>"
  let ?s4 = "\<lparr>currentUser = Some ''alice@example.com'', users = ?u, cart = [(''p1'', 2)],
      csrfToken = ?t, csrfInput = ?t,
      localStorage = \<lparr>stored_USER = Some (Some ''alice@example.com''), stored_USERS = Some ?u,
        stored_CART = Some [(''p1'', 2)], stored_ORDERS = None\<rparr>\<rparr>"
  have 1: "exec (RegisterUser '' Alice@Example.COM '' ''secret'') freshState = ?s1"
    by (simp add: registerUser_cases normalized_alice freshState_def initialState_def
          emptyStorage_def loadBlob_def)
  have 2: "exec (SetCurrentUser ''alice@example.com'') ?s1 = ?s2"
    by (simp add: setCurrentUser_def)
  have 3: "exec (AddToCart ''p1'') ?s2 = ?s3"
    by (simp add: addToCart_def Let_def)
  have 4: "exec (AddToCart ''p1'') ?s3 = ?s4"
    by (simp add: addToCart_def Let_def)
  have 5: "exec (AddToCart ''p4'') ?s4 = shopperState"
    by (simp add: addToCart_def Let_def shopperState_def)
  show ?thesis
    by (simp only: run.simps 1 2 3 4 5)
qed

subsection \<open>Cart totals\<close>

lemma find_key_Some:
  "find (\<lambda>p. f p = i) ps = Some p \<Longrightarrow> p \<in> set ps \<and> f p = i"
  by (induction ps) (auto split: if_splits)

lemma find_key_None:
  "find (\<lambda>p. f p = i) ps = None \<longleftrightarrow> i \<notin> f ` set ps"
  by (induction ps) auto

lemma foldl_lineTotal:
  "foldl (\<lambda>sum item. sum + lineTotal item) a ls = a + sum_list (map lineTotal ls)"
  by (induction ls arbitrary: a) auto

lemma items_Nil: "cartItemsWithDetails [] = []"
  by (simp add: cartItemsWithDetails_def)

lemma items_Cons:
  "cartItemsWithDetails ((i, q) # c) =
     (case find (\<lambda>p. product_id p = i) PRODUCTS of
        None \<Rightarrow> cartItemsWithDetails c
      | Some p \<Rightarrow> catalogue_line p q # cartItemsWithDetails c)"
  by (simp add: cartItemsWithDetails_def catalogue_line_def split: option.splits)

text \<open>Projected to identifier and quantity, the lines are the cart entries with a
  catalogue identifier, in the cart's order.\<close>

lemma items_entries:
  "map (\<lambda>l. (line_id l, line_qty l)) (cartItemsWithDetails c) =
     filter (\<lambda>(i, q). i \<in> product_id ` set PRODUCTS) c"
proof (induction c)
  case Nil
  show ?case by (simp add: items_Nil)
next
  case (Cons e c)
  obtain i q where e: "e = (i, q)" by (cases e)
  show ?case
  proof (cases "find (\<lambda>p. product_id p = i) PRODUCTS")
    case None
    then have "cartItemsWithDetails (e # c) = cartItemsWithDetails c"
      using e by (simp add: items_Cons)
    moreover from None have "i \<notin> product_id ` set PRODUCTS"
      using find_key_None [of product_id i PRODUCTS] by simp
    ultimately show ?thesis
      using Cons e by simp
  next
    case (Some p)
    then have p: "p \<in> set PRODUCTS" "product_id p = i"
      using find_key_Some [of product_id i PRODUCTS p] by simp_all
    then have "i \<in> product_id ` set PRODUCTS"
      by (metis imageI)
    moreover from Some
    have "cartItemsWithDetails (e # c) = catalogue_line p q # cartItemsWithDetails c"
      using e by (simp add: items_Cons)
    ultimately show ?thesis
      using p Cons e by (simp add: catalogue_line_def)
  qed
qed

lemma items_lines:
  "l \<in> set (cartItemsWithDetails c) \<Longrightarrow>
     \<exists>p \<in> set PRODUCTS. \<exists>q. (product_id p, q) \<in> set c \<and> l = catalogue_line p q"
proof (induction c)
  case Nil
  then show ?case by (simp add: items_Nil)
next
  case (Cons e c)
  obtain i q where e: "e = (i, q)" by (cases e)
  show ?case
  proof (cases "find (\<lambda>p. product_id p = i) PRODUCTS")
    case None
    then have "cartItemsWithDetails (e # c) = cartItemsWithDetails c"
      using e by (simp add: items_Cons)
    with Cons obtain p q'
      where "p \<in> set PRODUCTS" "(product_id p, q') \<in> set c" "l = catalogue_line p q'"
      by auto
    then show ?thesis
      by (intro bexI [of _ p] exI [of _ q']) simp_all
  next
    case (Some p)
    then have p: "p \<in> set PRODUCTS" "product_id p = i"
      using find_key_Some [of product_id i PRODUCTS p] by simp_all
    from Some have "cartItemsWithDetails (e # c) = catalogue_line p q # cartItemsWithDetails c"
      using e by (simp add: items_Cons)
    with Cons.prems have "l = catalogue_line p q \<or> l \<in> set (cartItemsWithDetails c)"
      by simp
    then show ?thesis
    proof
      assume "l = catalogue_line p q"
      with p e show ?thesis
        by (intro bexI [of _ p] exI [of _ q]) simp_all
    next
      assume "l \<in> set (cartItemsWithDetails c)"
      with Cons.IH obtain p' q'
        where "p' \<in> set PRODUCTS" "(product_id p', q') \<in> set c" "l = catalogue_line p' q'"
        by auto
      then show ?thesis
        by (intro bexI [of _ p'] exI [of _ q']) simp_all
    qed
  qed
qed

lemma cartTotals_example:
  "cartTotals [(''p1'', 2), (''zz'', 7), (''p4'', 1)] =
     \<lparr>items = [catalogue_line (PRODUCTS ! 0) 2, catalogue_line (PRODUCTS ! 3) 1],
      subtotal = 9997\<rparr>"
  by code_simp

text \<open>
  Claim C7 (\<open>computeTotals\<close>).  For every cart, the lines of \<open>cartTotals\<close> are, in the cart's
  order, exactly the entries whose identifier occurs in the catalogue (the others are
  dropped); each line carries the fields of a catalogue product with that identifier and
  the entry's quantity, and its \<open>lineTotal\<close> is price times quantity; the subtotal is the
  sum of the \<open>lineTotal\<close>s; and the cart \<open>{p1: 2, p4: 1}\<close> has subtotal \<open>9997\<close>.
\<close>

theorem cartTotals_joins_catalogue:
  "map (\<lambda>l. (line_id l, line_qty l)) (items (cartTotals c))
     = filter (\<lambda>(i, q). i \<in> product_id ` set PRODUCTS) c
   \<and> (\<forall>l \<in> set (items (cartTotals c)).
        \<exists>p \<in> set PRODUCTS. l = catalogue_line p (line_qty l) \<and> (product_id p, line_qty l) \<in> set c)
   \<and> (\<forall>l \<in> set (items (cartTotals c)). lineTotal l = line_price l * line_qty l)
   \<and> subtotal (cartTotals c) = sum_list (map lineTotal (items (cartTotals c)))
   \<and> subtotal (cartTotals [(''p1'', 2), (''p4'', 1)]) = 9997"
proof (intro conjI ballI)
  show "map (\<lambda>l. (line_id l, line_qty l)) (items (cartTotals c))
     = filter (\<lambda>(i, q). i \<in> product_id ` set PRODUCTS) c"
    by (simp add: cartTotals_def Let_def items_entries)
next
  fix l assume "l \<in> set (items (cartTotals c))"
  then have "l \<in> set (cartItemsWithDetails c)"
    by (simp add: cartTotals_def Let_def)
  then obtain p q
    where pq: "p \<in> set PRODUCTS" "(product_id p, q) \<in> set c" "l = catalogue_line p q"
    using items_lines by blast
  then have "line_qty l = q"
    by (simp add: catalogue_line_def)
  with pq show "\<exists>p \<in> set PRODUCTS. l = catalogue_line p (line_qty l)
                  \<and> (product_id p, line_qty l) \<in> set c"
    by (intro bexI [of _ p]) simp_all
next
  fix l assume "l \<in> set (items (cartTotals c))"
  then have "l \<in> set (cartItemsWithDetails c)"
    by (simp add: cartTotals_def Let_def)
  then obtain p q where "l = catalogue_line p q"
    using items_lines by blast
  then show "lineTotal l = line_price l * line_qty l"
    by (simp add: catalogue_line_def)
next
  show "subtotal (cartTotals c) = sum_list (map lineTotal (items (cartTotals c)))"
    by (simp add: cartTotals_def Let_def foldl_lineTotal)
next
  show "subtotal (cartTotals [(''p1'', 2), (''p4'', 1)]) = 9997"
    by code_simp
qed

theorem cartTotals_joins_catalogue_witness:
  "items (cartTotals [(''p1'', 2), (''zz'', 7), (''p4'', 1)])
     = [catalogue_line (PRODUCTS ! 0) 2, catalogue_line (PRODUCTS ! 3) 1]
   \<and> catalogue_line (PRODUCTS ! 0) 2 \<in> set (items (cartTotals [(''p1'', 2), (''zz'', 7), (''p4'', 1)]))
   \<and> lineTotal (catalogue_line (PRODUCTS ! 0) 2) = 7998
   \<and> map (\<lambda>l. (line_id l, line_qty l)) (items (cartTotals [(''p1'', 2), (''zz'', 7), (''p4'', 1)]))
       = [(''p1'', 2), (''p4'', 1)]
   \<and> subtotal (cartTotals [(''p1'', 2), (''zz'', 7), (''p4'', 1)]) = 9997"
proof -
  let ?c = "[(''p1'', 2), (''zz'', 7), (''p4'', 1)] :: (string \<times> int) list"
  let ?l = "catalogue_line (PRODUCTS ! 0) 2"
  have m: "?l \<in> set (items (cartTotals ?c))"
    by (simp add: cartTotals_example)
  have p: "line_price ?l = 3999" "line_qty ?l = 2"
    by code_simp+
  note joined = cartTotals_joins_catalogue [of ?c]
  have "lineTotal ?l = line_price ?l * line_qty ?l"
    by (rule bspec [OF joined [THEN conjunct2, THEN conjunct2, THEN conjunct1] m])
  then have t: "lineTotal ?l = 7998"
    by (simp add: p)
  have e: "map (\<lambda>l. (line_id l, line_qty l)) (items (cartTotals ?c)) = [(''p1'', 2), (''p4'', 1)]"
    by code_simp
  have s: "subtotal (cartTotals ?c) = 9997"
    by (simp add: cartTotals_example)
  have i: "items (cartTotals ?c) = [?l, catalogue_line (PRODUCTS ! 3) 1]"
    by (simp add: cartTotals_example)
  from i m t e s show ?thesis
    by (intro conjI)
qed

subsection \<open>Cart updates\<close>

lemma list_all_update:
  "list_all P al \<Longrightarrow> P (k, v) \<Longrightarrow> list_all P (AList.update k v al)"
  by (induction al) auto

lemma list_all_delete:
  "list_all P al \<Longrightarrow> list_all P (AList.delete k al)"
  by (induction al) auto

lemma positive_lookup:
  "quantities_positive c \<Longrightarrow> map_of c k = Some q \<Longrightarrow> 0 < q"
  by (auto simp: quantities_positive_def list_all_iff dest: map_of_SomeD)

lemma addToCart_positive:
  assumes "quantities_positive (cart s)"
  shows "quantities_positive (cart (addToCart productId s))"
proof (cases "map_of (cart s) productId")
  case None
  with assms show ?thesis
    by (simp add: addToCart_def Let_def quantities_positive_def list_all_update)
next
  case (Some q)
  with assms have "0 < q" by (rule positive_lookup)
  with assms Some show ?thesis
    by (simp add: addToCart_def Let_def quantities_positive_def list_all_update)
qed

lemma updateCartItem_positive:
  assumes "quantities_positive (cart s)"
  shows "quantities_positive (cart (updateCartItem productId delta s))"
  using assms
  by (auto simp: updateCartItem_def quantities_positive_def Let_def list_all_update list_all_delete
           split: option.splits)

lemma exec_cart:
  "cart (exec c s) = cart s \<or> cart (exec c s) = []
   \<or> (\<exists>p. c = AddToCart p) \<or> (\<exists>p d. c = UpdateCartItem p d)"
  by (cases c)
     (auto simp: registerUser_def loginUser_def logoutUser_def setCurrentUser_def clearCart_def
                 saveOrder_def btnCheckout_click_def checkoutForm_submit_def Let_def
           split: option.splits)

lemma exec_positive:
  assumes "quantities_positive (cart s)"
  shows "quantities_positive (cart (exec c s))"
proof -
  consider "cart (exec c s) = cart s" | "cart (exec c s) = []"
    | p where "c = AddToCart p" | p d where "c = UpdateCartItem p d"
    using exec_cart by blast
  then show ?thesis
  proof cases
    case 1 with assms show ?thesis by simp
  next
    case 2 then show ?thesis by (simp add: quantities_positive_def)
  next
    case 3 with assms show ?thesis by (simp add: addToCart_positive)
  next
    case 4 with assms show ?thesis by (simp add: updateCartItem_positive)
  qed
qed

lemma exec_stored_cart:
  "stored_CART (localStorage (exec c s)) = stored_CART (localStorage s)
   \<or> stored_CART (localStorage (exec c s)) = Some (cart (exec c s))"
  by (cases c)
     (auto simp: registerUser_def loginUser_def logoutUser_def setCurrentUser_def clearCart_def
                 saveOrder_def btnCheckout_click_def checkoutForm_submit_def Let_def
                 addToCart_def updateCartItem_def
           split: option.splits)

lemma run_positive:
  "quantities_positive (cart s) \<Longrightarrow> quantities_positive (cart (run calls s))"
  by (induction calls arbitrary: s) (simp_all add: exec_positive)

lemma run_stored_cart:
  "quantities_positive (cart s) \<Longrightarrow>
     stored_CART (localStorage (run calls s)) = stored_CART (localStorage s)
     \<or> (\<exists>c. stored_CART (localStorage (run calls s)) = Some c \<and> quantities_positive c)"
proof (induction calls arbitrary: s)
  case Nil
  show ?case by simp
next
  case (Cons c calls)
  have pos: "quantities_positive (cart (exec c s))"
    using Cons.prems by (rule exec_positive)
  from Cons.IH [OF pos] show ?case
  proof
    assume same: "stored_CART (localStorage (run calls (exec c s))) = stored_CART (localStorage (exec c s))"
    from exec_stored_cart [of c s] show ?thesis
    proof
      assume "stored_CART (localStorage (exec c s)) = stored_CART (localStorage s)"
      with same show ?thesis by simp
    next
      assume "stored_CART (localStorage (exec c s)) = Some (cart (exec c s))"
      with same pos show ?thesis by simp
    qed
  next
    assume "\<exists>c'. stored_CART (localStorage (run calls (exec c s))) = Some c' \<and> quantities_positive c'"
    then show ?thesis by simp
  qed
qed

text \<open>
  Claim C3 (cart quantity invariant).  From a state whose cart holds only strictly
  positive quantities, every finite sequence of calls leaves a cart in which every
  entry, and hence every identifier that is present, has a strictly positive quantity.
  The sequences range over all state-changing functions of the script, \<open>addToCart\<close> and
  \<open>updateCartItem\<close> with any integer delta among them.  The persisted copy of the cart is
  either the one found at the start or again a cart of strictly positive quantities.
\<close>

theorem cart_quantities_stay_positive:
  assumes "quantities_positive (cart s)"
  shows "quantities_positive (cart (run calls s))
       \<and> (\<forall>productId q. map_of (cart (run calls s)) productId = Some q \<longrightarrow> 0 < q)
       \<and> (stored_CART (localStorage (run calls s)) = stored_CART (localStorage s)
          \<or> (\<exists>c. stored_CART (localStorage (run calls s)) = Some c \<and> quantities_positive c))"
  using assms run_positive [OF assms, of calls] run_stored_cart [OF assms, of calls]
  by (auto dest: positive_lookup)

lemma shopper_after_cart_calls:
  "cart (run [AddToCart ''p2'', UpdateCartItem ''p1'' (- 2), UpdateCartItem ''p2'' 3] shopperState)
     = [(''p4'', 1), (''p2'', 4)]"
  by (simp add: addToCart_def updateCartItem_def Let_def shopperState_def)

theorem cart_quantities_stay_positive_witness:
  "quantities_positive (cart shopperState)
   \<and> cart (run [AddToCart ''p2'', UpdateCartItem ''p1'' (- 2), UpdateCartItem ''p2'' 3] shopperState)
       = [(''p4'', 1), (''p2'', 4)]
   \<and> quantities_positive
        (cart (run [AddToCart ''p2'', UpdateCartItem ''p1'' (- 2), UpdateCartItem ''p2'' 3] shopperState))
   \<and> map_of (cart (run [AddToCart ''p2'', UpdateCartItem ''p1'' (- 2), UpdateCartItem ''p2'' 3]
                     shopperState)) ''p1'' = None
   \<and> map_of (cart (run [AddToCart ''p2'', UpdateCartItem ''p1'' (- 2), UpdateCartItem ''p2'' 3]
                     shopperState)) ''p2'' = Some 4"
proof -
  have h: "quantities_positive (cart shopperState)"
    by (simp add: shopper_fields quantities_positive_def)
  note positive = cart_quantities_stay_positive [OF h,
      of "[AddToCart ''p2'', UpdateCartItem ''p1'' (- 2), UpdateCartItem ''p2'' 3]"]
  from positive have "quantities_positive
        (cart (run [AddToCart ''p2'', UpdateCartItem ''p1'' (- 2), UpdateCartItem ''p2'' 3] shopperState))"
    by (rule conjunct1)
  with h show ?thesis
    by (simp only: shopper_after_cart_calls) simp
qed

text \<open>What \<open>updateCartItem\<close> does by the stored quantity.  The guard
  \<^verbatim>\<open>if (!cart[productId]) return\<close> lets a stored \<open>0\<close>, which no run of the script
  produces, pass for a missing entry.\<close>

lemma updateCartItem_cases:
  "(map_of (cart s) productId = None \<or> map_of (cart s) productId = Some 0 \<longrightarrow>
      updateCartItem productId delta s = s)
   \<and> (\<forall>q. map_of (cart s) productId = Some q \<and> q \<noteq> 0 \<and> q + delta \<le> 0 \<longrightarrow>
        cart (updateCartItem productId delta s) = AList.delete productId (cart s)
        \<and> map_of (cart (updateCartItem productId delta s)) = (map_of (cart s))(productId := None))
   \<and> (\<forall>q. map_of (cart s) productId = Some q \<and> q \<noteq> 0 \<and> 0 < q + delta \<longrightarrow>
        cart (updateCartItem productId delta s) = AList.update productId (q + delta) (cart s)
        \<and> map_of (cart (updateCartItem productId delta s)) = (map_of (cart s))(productId \<mapsto> q + delta))
   \<and> (\<forall>q. map_of (cart s) productId = Some q \<and> q \<noteq> 0 \<longrightarrow>
        stored_CART (localStorage (updateCartItem productId delta s))
          = Some (cart (updateCartItem productId delta s)))"
  by (auto simp: updateCartItem_def Let_def delete_conv' update_conv')

text \<open>
  Claim C4 (\<open>updateItem\<close>).  On every cart of strictly positive quantities, for every
  identifier and every integer delta: \<open>updateCartItem\<close> changes nothing when the
  identifier is absent; when it is present with quantity \<open>q\<close>, the entry is removed if
  \<open>q + delta \<le> 0\<close> and holds \<open>q + delta\<close> otherwise, the other entries stay as they are,
  and the cart is persisted either way.  In particular a delta of \<open>-2\<close> on \<open>p1\<close> with
  quantity \<open>2\<close> removes \<open>p1\<close>.
\<close>

theorem updateCartItem_semantics:
  assumes "quantities_positive (cart s)"
  shows "(map_of (cart s) productId = None \<longrightarrow> updateCartItem productId delta s = s)
   \<and> (\<forall>q. map_of (cart s) productId = Some q \<and> q + delta \<le> 0 \<longrightarrow>
        cart (updateCartItem productId delta s) = AList.delete productId (cart s)
        \<and> map_of (cart (updateCartItem productId delta s)) = (map_of (cart s))(productId := None))
   \<and> (\<forall>q. map_of (cart s) productId = Some q \<and> 0 < q + delta \<longrightarrow>
        cart (updateCartItem productId delta s) = AList.update productId (q + delta) (cart s)
        \<and> map_of (cart (updateCartItem productId delta s)) = (map_of (cart s))(productId \<mapsto> q + delta))
   \<and> (\<forall>q. map_of (cart s) productId = Some q \<longrightarrow>
        stored_CART (localStorage (updateCartItem productId delta s))
          = Some (cart (updateCartItem productId delta s)))
   \<and> (map_of (cart s) ''p1'' = Some 2 \<longrightarrow>
        map_of (cart (updateCartItem ''p1'' (- 2) s)) ''p1'' = None)"
proof -
  have nz: "q \<noteq> 0" if "map_of (cart s) k = Some q" for k q
    using positive_lookup [OF assms that] by simp
  note c = updateCartItem_cases [of s productId delta]
  have 1: "map_of (cart s) productId = None \<longrightarrow> updateCartItem productId delta s = s"
    using c by blast
  have 2: "\<forall>q. map_of (cart s) productId = Some q \<and> q + delta \<le> 0 \<longrightarrow>
        cart (updateCartItem productId delta s) = AList.delete productId (cart s)
        \<and> map_of (cart (updateCartItem productId delta s)) = (map_of (cart s))(productId := None)"
    using c nz [of productId] by blast
  have 3: "\<forall>q. map_of (cart s) productId = Some q \<and> 0 < q + delta \<longrightarrow>
        cart (updateCartItem productId delta s) = AList.update productId (q + delta) (cart s)
        \<and> map_of (cart (updateCartItem productId delta s)) = (map_of (cart s))(productId \<mapsto> q + delta)"
    using c nz [of productId] by blast
  have 4: "\<forall>q. map_of (cart s) productId = Some q \<longrightarrow>
        stored_CART (localStorage (updateCartItem productId delta s))
          = Some (cart (updateCartItem productId delta s))"
    using c nz [of productId] by blast
  have 5: "map_of (cart s) ''p1'' = Some 2 \<longrightarrow>
        map_of (cart (updateCartItem ''p1'' (- 2) s)) ''p1'' = None"
    by (simp add: updateCartItem_def Let_def delete_conv')
  from 1 2 3 4 5 show ?thesis
    by (intro conjI)
qed

theorem updateCartItem_semantics_witness:
  "quantities_positive (cart shopperState)
   \<and> map_of (cart shopperState) ''p1'' = Some 2
   \<and> cart (updateCartItem ''p1'' (- 2) shopperState) = [(''p4'', 1)]
   \<and> map_of (cart (updateCartItem ''p1'' (- 2) shopperState)) ''p1'' = None
   \<and> cart (updateCartItem ''p1'' 3 shopperState) = [(''p1'', 5), (''p4'', 1)]
   \<and> stored_CART (localStorage (updateCartItem ''p1'' 3 shopperState)) = Some [(''p1'', 5), (''p4'', 1)]
   \<and> map_of (cart shopperState) ''p9'' = None
   \<and> updateCartItem ''p9'' 3 shopperState = shopperState"
proof -
  have p: "quantities_positive (cart shopperState)"
    by (simp add: shopper_fields quantities_positive_def)
  have h1: "map_of (cart shopperState) ''p1'' = Some 2"
    and h9: "map_of (cart shopperState) ''p9'' = None"
    by (simp_all add: shopper_fields)
  from updateCartItem_semantics [OF p, of "''p1''" "- 2"]
    updateCartItem_semantics [OF p, of "''p1''" 3]
    updateCartItem_semantics [OF p, of "''p9''" 3] p h1 h9
  show ?thesis by (simp add: shopper_fields)
qed

subsection \<open>Authentication\<close>

text \<open>No call removes or rewrites an entry of the user directory.\<close>

lemma exec_users:
  "users s k = Some u \<Longrightarrow> users (exec c s) k = Some u"
  by (cases c)
     (auto simp: registerUser_cases loginUser_cases logoutUser_def setCurrentUser_def clearCart_def
                 saveOrder_def btnCheckout_click_def checkoutForm_submit_def Let_def
                 addToCart_def updateCartItem_def
           split: option.splits)

lemma run_users:
  "users s k = Some u \<Longrightarrow> users (run calls s) k = Some u"
  by (induction calls arbitrary: s) (simp_all add: exec_users)

lemma hash_guess: "hashString ''guess'' \<noteq> hashString ''secret''"
  by (simp add: hashString_def charCode_def toString16.simps hexDigit_def)

lemma normalized_bob: "toLowerCase (trim ''bob@example.com'') = ''bob@example.com''"
  by code_simp

lemma normalized_alice_upper: "toLowerCase (trim ''ALICE@EXAMPLE.COM'') = ''alice@example.com''"
  by code_simp

text \<open>
  Claim C5 (register, then log in).  If \<open>registerUser e p\<close> returns, then \<open>loginUser e p\<close>,
  called at once or after any further calls of the script, returns and sets the current
  user, in memory and in the store, to the trimmed and lower-cased \<open>e\<close>.  In any state,
  \<open>loginUser\<close> throws ``Invalid credentials'' when the digest of the password differs
  from the hash stored for the normalised address, and when no user is stored for it.
\<close>

theorem register_then_login:
  "(fst (registerUser e p s) = Returned \<longrightarrow>
      fst (loginUser e p (run calls (snd (registerUser e p s)))) = Returned
      \<and> currentUser (snd (loginUser e p (run calls (snd (registerUser e p s)))))
          = Some (toLowerCase (trim e))
      \<and> stored_USER (localStorage (snd (loginUser e p (run calls (snd (registerUser e p s))))))
          = Some (Some (toLowerCase (trim e))))
   \<and> (\<forall>u. users s (toLowerCase (trim e)) = Some u \<and> hashString p' \<noteq> passwordHash u \<longrightarrow>
         fst (loginUser e p' s) = Threw InvalidCredentials)
   \<and> (users s (toLowerCase (trim e)) = None \<longrightarrow>
         fst (loginUser e p' s) = Threw InvalidCredentials)"
proof (intro conjI impI allI)
  assume ok: "fst (registerUser e p s) = Returned"
  let ?s1 = "snd (registerUser e p s)"
  from ok have "users ?s1 (toLowerCase (trim e)) = Some \<lparr>passwordHash = hashString p\<rparr>"
    by (simp add: registerUser_cases split: if_splits)
  then have u: "users (run calls ?s1) (toLowerCase (trim e)) = Some \<lparr>passwordHash = hashString p\<rparr>"
    by (rule run_users)
  show "fst (loginUser e p (run calls ?s1)) = Returned"
    by (simp add: loginUser_cases u)
  show "currentUser (snd (loginUser e p (run calls ?s1))) = Some (toLowerCase (trim e))"
    by (simp add: loginUser_cases u setCurrentUser_def)
  show "stored_USER (localStorage (snd (loginUser e p (run calls ?s1))))
          = Some (Some (toLowerCase (trim e)))"
    by (simp add: loginUser_cases u setCurrentUser_def)
next
  fix u assume "users s (toLowerCase (trim e)) = Some u \<and> hashString p' \<noteq> passwordHash u"
  then show "fst (loginUser e p' s) = Threw InvalidCredentials"
    by (auto simp: loginUser_cases)
next
  assume "users s (toLowerCase (trim e)) = None"
  then show "fst (loginUser e p' s) = Threw InvalidCredentials"
    by (simp add: loginUser_cases)
qed

theorem register_then_login_witness:
  "fst (registerUser '' Alice@Example.COM '' ''secret'' freshState) = Returned
   \<and> fst (loginUser '' Alice@Example.COM '' ''secret''
          (run [LogoutUser, AddToCart ''p1'']
             (snd (registerUser '' Alice@Example.COM '' ''secret'' freshState)))) = Returned
   \<and> currentUser (snd (loginUser '' Alice@Example.COM '' ''secret''
          (run [LogoutUser, AddToCart ''p1'']
             (snd (registerUser '' Alice@Example.COM '' ''secret'' freshState)))))
       = Some ''alice@example.com''
   \<and> users shopperState (toLowerCase (trim '' Alice@Example.COM ''))
       = Some \<lparr>passwordHash = hashString ''secret''\<rparr>
   \<and> hashString ''guess'' \<noteq> hashString ''secret''
   \<and> fst (loginUser '' Alice@Example.COM '' ''guess'' shopperState) = Threw InvalidCredentials
   \<and> users shopperState (toLowerCase (trim ''bob@example.com'')) = None
   \<and> fst (loginUser ''bob@example.com'' ''secret'' shopperState) = Threw InvalidCredentials"
proof -
  have r: "fst (registerUser '' Alice@Example.COM '' ''secret'' freshState) = Returned"
    by (simp add: registerUser_cases fresh_fields)
  have a: "users shopperState (toLowerCase (trim '' Alice@Example.COM ''))
       = Some \<lparr>passwordHash = hashString ''secret''\<rparr>"
    by (simp add: normalized_alice shopper_fields)
  have b: "users shopperState (toLowerCase (trim ''bob@example.com'')) = None"
    by (simp add: normalized_bob shopper_fields)
  from register_then_login [of "'' Alice@Example.COM ''" "''secret''" freshState
      "[LogoutUser, AddToCart ''p1'']"] r
  have 1: "fst (loginUser '' Alice@Example.COM '' ''secret''
          (run [LogoutUser, AddToCart ''p1'']
             (snd (registerUser '' Alice@Example.COM '' ''secret'' freshState)))) = Returned"
    and 2: "currentUser (snd (loginUser '' Alice@Example.COM '' ''secret''
          (run [LogoutUser, AddToCart ''p1'']
             (snd (registerUser '' Alice@Example.COM '' ''secret'' freshState)))))
       = Some ''alice@example.com''"
    by (simp_all only: normalized_alice)
  from register_then_login [of "'' Alice@Example.COM ''" "''secret''" shopperState _ "''guess''"]
    a hash_guess
  have 3: "fst (loginUser '' Alice@Example.COM '' ''guess'' shopperState) = Threw InvalidCredentials"
    by auto
  from register_then_login [of "''bob@example.com''" "''secret''" shopperState _ "''secret''"] b
  have 4: "fst (loginUser ''bob@example.com'' ''secret'' shopperState) = Threw InvalidCredentials"
    by blast
  from r 1 2 a hash_guess 3 b 4 show ?thesis
    by (intro conjI)
qed

text \<open>
  Claim C6 (duplicate registration).  If \<open>registerUser e1 p1\<close> has returned and \<open>e2\<close> is
  equal to \<open>e1\<close> after trimming and lower-casing, then every later \<open>registerUser e2 p2\<close>,
  whatever calls came in between and whatever the passwords, throws ``User already
  exists''.
\<close>

theorem duplicate_registration:
  "fst (registerUser e1 p1 s) = Returned \<and> toLowerCase (trim e1) = toLowerCase (trim e2) \<longrightarrow>
     fst (registerUser e2 p2 (run calls (snd (registerUser e1 p1 s)))) = Threw DuplicateUser"
proof (intro impI, elim conjE)
  assume ok: "fst (registerUser e1 p1 s) = Returned"
    and eq: "toLowerCase (trim e1) = toLowerCase (trim e2)"
  let ?s1 = "snd (registerUser e1 p1 s)"
  from ok have "users ?s1 (toLowerCase (trim e1)) = Some \<lparr>passwordHash = hashString p1\<rparr>"
    by (simp add: registerUser_cases split: if_splits)
  then have "users (run calls ?s1) (toLowerCase (trim e1)) = Some \<lparr>passwordHash = hashString p1\<rparr>"
    by (rule run_users)
  with eq show "fst (registerUser e2 p2 (run calls ?s1)) = Threw DuplicateUser"
    by (simp add: registerUser_cases)
qed

theorem duplicate_registration_witness:
  "fst (registerUser '' Alice@Example.COM '' ''secret'' freshState) = Returned
   \<and> toLowerCase (trim '' Alice@Example.COM '') = toLowerCase (trim ''ALICE@EXAMPLE.COM'')
   \<and> fst (registerUser ''ALICE@EXAMPLE.COM'' ''other''
          (run [SetCurrentUser ''alice@example.com'', AddToCart ''p1'', LogoutUser]
             (snd (registerUser '' Alice@Example.COM '' ''secret'' freshState))))
       = Threw DuplicateUser"
proof -
  have r: "fst (registerUser '' Alice@Example.COM '' ''secret'' freshState) = Returned"
    by (simp add: registerUser_cases fresh_fields)
  have n: "toLowerCase (trim '' Alice@Example.COM '') = toLowerCase (trim ''ALICE@EXAMPLE.COM'')"
    by (simp only: normalized_alice normalized_alice_upper)
  from duplicate_registration [of "'' Alice@Example.COM ''" "''secret''" freshState
      "''ALICE@EXAMPLE.COM''" "''other''"
      "[SetCurrentUser ''alice@example.com'', AddToCart ''p1'', LogoutUser]"] r n
  have "fst (registerUser ''ALICE@EXAMPLE.COM'' ''other''
          (run [SetCurrentUser ''alice@example.com'', AddToCart ''p1'', LogoutUser]
             (snd (registerUser '' Alice@Example.COM '' ''secret'' freshState))))
       = Threw DuplicateUser"
    by blast
  with r n show ?thesis
    by (intro conjI)
qed

text \<open>
  Claim C9 (errors before mutation).  When \<open>registerUser\<close> throws ``User already exists''
  or \<open>loginUser\<close> throws ``Invalid credentials'', the state at the \<open>throw\<close> is the state
  before the call: user directory, current user, store and all the rest.  These are the
  only errors the two functions throw.
\<close>

theorem auth_errors_leave_state:
  "(fst (registerUser e p s) = Threw DuplicateUser \<longrightarrow> snd (registerUser e p s) = s)
   \<and> (fst (loginUser e p s) = Threw InvalidCredentials \<longrightarrow> snd (loginUser e p s) = s)
   \<and> (\<forall>err. fst (registerUser e p s) = Threw err \<longrightarrow> err = DuplicateUser)
   \<and> (\<forall>err. fst (loginUser e p s) = Threw err \<longrightarrow> err = InvalidCredentials)"
  by (auto simp: registerUser_cases loginUser_cases split: option.splits if_splits)

theorem auth_errors_leave_state_witness:
  "fst (registerUser ''ALICE@EXAMPLE.COM'' ''other'' shopperState) = Threw DuplicateUser
   \<and> snd (registerUser ''ALICE@EXAMPLE.COM'' ''other'' shopperState) = shopperState
   \<and> fst (loginUser '' Alice@Example.COM '' ''guess'' shopperState) = Threw InvalidCredentials
   \<and> snd (loginUser '' Alice@Example.COM '' ''guess'' shopperState) = shopperState
   \<and> fst (loginUser ''bob@example.com'' ''secret'' shopperState) = Threw InvalidCredentials
   \<and> snd (loginUser ''bob@example.com'' ''secret'' shopperState) = shopperState"
proof -
  have d: "fst (registerUser ''ALICE@EXAMPLE.COM'' ''other'' shopperState) = Threw DuplicateUser"
    by (simp add: registerUser_cases normalized_alice_upper shopper_fields)
  have g: "fst (loginUser '' Alice@Example.COM '' ''guess'' shopperState) = Threw InvalidCredentials"
    using hash_guess by (simp add: loginUser_cases normalized_alice shopper_fields)
  have b: "fst (loginUser ''bob@example.com'' ''secret'' shopperState) = Threw InvalidCredentials"
    by (simp add: loginUser_cases normalized_bob shopper_fields)
  from auth_errors_leave_state [of "''ALICE@EXAMPLE.COM''" "''other''" shopperState] d
  have 1: "snd (registerUser ''ALICE@EXAMPLE.COM'' ''other'' shopperState) = shopperState"
    by blast
  from auth_errors_leave_state [of "'' Alice@Example.COM ''" "''guess''" shopperState] g
  have 2: "snd (loginUser '' Alice@Example.COM '' ''guess'' shopperState) = shopperState"
    by blast
  from auth_errors_leave_state [of "''bob@example.com''" "''secret''" shopperState] b
  have 3: "snd (loginUser ''bob@example.com'' ''secret'' shopperState) = shopperState"
    by blast
  from d 1 g 2 b 3 show ?thesis
    by (intro conjI)
qed

subsection \<open>Checkout\<close>

lemma toString16_nonempty: "toString16 n \<noteq> []"
  by (subst toString16.simps) simp

lemma generateCsrfToken_nonempty: "generateCsrfToken rnd \<noteq> []"
  by (cases rnd) (simp add: generateCsrfToken.simps toString16_nonempty)


lemma submit_placed:
  assumes "loggedIn s" "csrfInput s \<noteq> []" "csrfInput s = csrfToken s" "form_valid e"
    "items (cartTotals (cart s)) \<noteq> []"
  shows "checkoutForm_submit e s =
     (OrderPlaced,
      (clearCart (saveOrder (newOrder e (cartTotals (cart s))) s))
        \<lparr>csrfToken := generateCsrfToken (entropy e), csrfInput := generateCsrfToken (entropy e)\<rparr>)"
  using assms by (simp add: checkoutForm_submit_def Let_def)

lemma submit_rejected:
  assumes "\<not> (loggedIn s \<and> csrfInput s \<noteq> [] \<and> csrfInput s = csrfToken s \<and> form_valid e
              \<and> items (cartTotals (cart s)) \<noteq> [])"
  shows "checkoutForm_submit e s =
     (if \<not> loggedIn s then (PleaseLogin, s)
      else if csrfInput s = [] \<or> csrfInput s \<noteq> csrfToken s then
        (SessionExpired,
         s\<lparr>csrfToken := generateCsrfToken (entropy e), csrfInput := generateCsrfToken (entropy e)\<rparr>)
      else if \<not> form_valid e then (InvalidFields, s)
      else (CartIsEmpty, s))"
  using assms by (auto simp: checkoutForm_submit_def Let_def)

lemma submit_placed_iff:
  "fst (checkoutForm_submit e s) = OrderPlaced \<longleftrightarrow>
     loggedIn s \<and> csrfInput s \<noteq> [] \<and> csrfInput s = csrfToken s \<and> form_valid e
     \<and> items (cartTotals (cart s)) \<noteq> []"
  by (auto simp: checkoutForm_submit_def Let_def)

lemma saveOrder_loggedIn:
  "loggedIn s \<Longrightarrow>
     saveOrder order' s =
       s\<lparr>localStorage := (localStorage s)
           \<lparr>stored_ORDERS :=
              Some ((loadBlob (stored_ORDERS (localStorage s)) Map.empty)
                      (the (currentUser s) \<mapsto> order' # loadOrders s))\<rparr>\<rparr>"
  by (simp add: saveOrder_def loadOrders_def Let_def)

lemma placed_orders:
  assumes "fst (checkoutForm_submit e s) = OrderPlaced"
  shows "loadOrders (snd (checkoutForm_submit e s)) = newOrder e (cartTotals (cart s)) # loadOrders s"
proof -
  from assms have l: "loggedIn s" and t1: "csrfInput s \<noteq> []" and t2: "csrfInput s = csrfToken s"
    and v: "form_valid e" and i: "items (cartTotals (cart s)) \<noteq> []"
    unfolding submit_placed_iff by blast+
  show ?thesis
    using l
    by (simp add: submit_placed [OF l t1 t2 v i] clearCart_def saveOrder_loggedIn [OF l]
          loadOrders_def loggedIn_def loadBlob_def)
qed

lemma shopper_totals:
  "cartTotals [(''p1'', 2), (''p4'', 1)] =
     \<lparr>items = [catalogue_line (PRODUCTS ! 0) 2, catalogue_line (PRODUCTS ! 3) 1],
      subtotal = 9997\<rparr>"
  by code_simp

lemma shopper_submittable:
  "loggedIn shopperState" "csrfInput shopperState \<noteq> []"
  "csrfInput shopperState = csrfToken shopperState" "form_valid sampleSubmission"
  "items (cartTotals (cart shopperState)) \<noteq> []"
  by (simp_all add: loggedIn_def shopper_fields generateCsrfToken_nonempty sampleSubmission_def
        shopper_totals)

lemma shopper_orders: "loadOrders shopperState = []"
  by (simp add: loadOrders_def shopper_fields loadBlob_def loggedIn_def)

lemma fresh_not_loggedIn: "\<not> loggedIn freshState"
  by (simp add: loggedIn_def fresh_fields)

text \<open>
  Claim C1 (checkout submission).  With a logged-in user, a submitted token that is
  present and equal to the expected one, a form that passes validation and a cart whose
  join with the catalogue is not empty, the submit listener reports the order as placed,
  puts exactly the new order in front of the current user's order list (the lists of the
  other users stay as they are) and leaves the cart empty, in memory and in the store.
  When any of the four conditions fails, it reports the corresponding refusal, records
  no order and leaves the cart as it was.
\<close>

theorem checkout_records_one_order:
  "(loggedIn s \<and> csrfInput s \<noteq> [] \<and> csrfInput s = csrfToken s \<and> form_valid e
      \<and> items (cartTotals (cart s)) \<noteq> [] \<longrightarrow>
      fst (checkoutForm_submit e s) = OrderPlaced
      \<and> loadOrders (snd (checkoutForm_submit e s)) = newOrder e (cartTotals (cart s)) # loadOrders s
      \<and> stored_ORDERS (localStorage (snd (checkoutForm_submit e s)))
          = Some ((loadBlob (stored_ORDERS (localStorage s)) Map.empty)
                    (the (currentUser s) \<mapsto> newOrder e (cartTotals (cart s)) # loadOrders s))
      \<and> cart (snd (checkoutForm_submit e s)) = []
      \<and> stored_CART (localStorage (snd (checkoutForm_submit e s))) = Some [])
   \<and> (\<not> (loggedIn s \<and> csrfInput s \<noteq> [] \<and> csrfInput s = csrfToken s \<and> form_valid e
          \<and> items (cartTotals (cart s)) \<noteq> []) \<longrightarrow>
      fst (checkoutForm_submit e s) =
        (if \<not> loggedIn s then PleaseLogin
         else if csrfInput s = [] \<or> csrfInput s \<noteq> csrfToken s then SessionExpired
         else if \<not> form_valid e then InvalidFields
         else CartIsEmpty)
      \<and> loadOrders (snd (checkoutForm_submit e s)) = loadOrders s
      \<and> stored_ORDERS (localStorage (snd (checkoutForm_submit e s))) = stored_ORDERS (localStorage s)
      \<and> cart (snd (checkoutForm_submit e s)) = cart s
      \<and> stored_CART (localStorage (snd (checkoutForm_submit e s))) = stored_CART (localStorage s))"
proof (intro conjI impI)
  assume ok: "loggedIn s \<and> csrfInput s \<noteq> [] \<and> csrfInput s = csrfToken s \<and> form_valid e
      \<and> items (cartTotals (cart s)) \<noteq> []"
  then have l: "loggedIn s" and t1: "csrfInput s \<noteq> []" and t2: "csrfInput s = csrfToken s"
    and v: "form_valid e" and i: "items (cartTotals (cart s)) \<noteq> []"
    by blast+
  note eq = submit_placed [OF l t1 t2 v i]
  show "fst (checkoutForm_submit e s) = OrderPlaced"
    by (simp add: eq)
  show "stored_ORDERS (localStorage (snd (checkoutForm_submit e s)))
          = Some ((loadBlob (stored_ORDERS (localStorage s)) Map.empty)
                    (the (currentUser s) \<mapsto> newOrder e (cartTotals (cart s)) # loadOrders s))"
    by (simp add: eq clearCart_def saveOrder_loggedIn [OF l])
  show "loadOrders (snd (checkoutForm_submit e s)) = newOrder e (cartTotals (cart s)) # loadOrders s"
    by (rule placed_orders) (simp add: eq)
  show "cart (snd (checkoutForm_submit e s)) = []"
    by (simp add: eq clearCart_def)
  show "stored_CART (localStorage (snd (checkoutForm_submit e s))) = Some []"
    by (simp add: eq clearCart_def)
next
  assume no: "\<not> (loggedIn s \<and> csrfInput s \<noteq> [] \<and> csrfInput s = csrfToken s \<and> form_valid e
          \<and> items (cartTotals (cart s)) \<noteq> [])"
  note eq = submit_rejected [OF no]
  show "fst (checkoutForm_submit e s) =
        (if \<not> loggedIn s then PleaseLogin
         else if csrfInput s = [] \<or> csrfInput s \<noteq> csrfToken s then SessionExpired
         else if \<not> form_valid e then InvalidFields
         else CartIsEmpty)"
    by (simp add: eq)
  show "loadOrders (snd (checkoutForm_submit e s)) = loadOrders s"
    by (simp add: eq loadOrders_def loggedIn_def)
  show "stored_ORDERS (localStorage (snd (checkoutForm_submit e s))) = stored_ORDERS (localStorage s)"
    by (simp add: eq)
  show "cart (snd (checkoutForm_submit e s)) = cart s"
    by (simp add: eq)
  show "stored_CART (localStorage (snd (checkoutForm_submit e s))) = stored_CART (localStorage s)"
    by (simp add: eq)
qed

theorem checkout_records_one_order_witness:
  "loggedIn shopperState \<and> csrfInput shopperState \<noteq> []
   \<and> csrfInput shopperState = csrfToken shopperState \<and> form_valid sampleSubmission
   \<and> items (cartTotals (cart shopperState)) \<noteq> []
   \<and> fst (checkoutForm_submit sampleSubmission shopperState) = OrderPlaced
   \<and> loadOrders (snd (checkoutForm_submit sampleSubmission shopperState))
       = [newOrder sampleSubmission (cartTotals [(''p1'', 2), (''p4'', 1)])]
   \<and> cart (snd (checkoutForm_submit sampleSubmission shopperState)) = []
   \<and> \<not> loggedIn freshState
   \<and> fst (checkoutForm_submit sampleSubmission freshState) = PleaseLogin
   \<and> loadOrders (snd (checkoutForm_submit sampleSubmission freshState)) = loadOrders freshState
   \<and> cart (snd (checkoutForm_submit sampleSubmission freshState)) = cart freshState"
proof -
  note h = shopper_submittable
  from checkout_records_one_order [of shopperState sampleSubmission] h
  have 1: "fst (checkoutForm_submit sampleSubmission shopperState) = OrderPlaced"
    and 2: "loadOrders (snd (checkoutForm_submit sampleSubmission shopperState))
       = newOrder sampleSubmission (cartTotals (cart shopperState)) # loadOrders shopperState"
    and 3: "cart (snd (checkoutForm_submit sampleSubmission shopperState)) = []"
    by blast+
  from 2 have o: "loadOrders (snd (checkoutForm_submit sampleSubmission shopperState))
       = [newOrder sampleSubmission (cartTotals [(''p1'', 2), (''p4'', 1)])]"
    by (simp add: shopper_orders shopper_fields)
  from checkout_records_one_order [of freshState sampleSubmission] fresh_not_loggedIn
  have 4: "fst (checkoutForm_submit sampleSubmission freshState) = PleaseLogin"
    and 5: "loadOrders (snd (checkoutForm_submit sampleSubmission freshState)) = loadOrders freshState"
    and 6: "cart (snd (checkoutForm_submit sampleSubmission freshState)) = cart freshState"
    by simp_all
  from h 1 o 3 fresh_not_loggedIn 4 5 6 show ?thesis
    by (intro conjI)
qed

subsection \<open>Token\<close>






subsection \<open>Placed orders\<close>

lemma newOrder_items:
  "map (\<lambda>i. (item_id i, item_qty i)) (order_items (newOrder e (cartTotals c)))
     = filter (\<lambda>(i, q). i \<in> product_id ` set PRODUCTS) c"
proof -
  have "map (\<lambda>i. (item_id i, item_qty i)) (order_items (newOrder e (cartTotals c)))
      = map (\<lambda>l. (line_id l, line_qty l)) (cartItemsWithDetails c)"
    by (simp add: newOrder_def cartTotals_def Let_def comp_def)
  then show ?thesis
    by (simp only: items_entries)
qed

lemma newOrder_item:
  assumes "i \<in> set (order_items (newOrder e (cartTotals c)))"
  shows "\<exists>p \<in> set PRODUCTS. item_id i = product_id p \<and> item_name i = product_name p
           \<and> item_price i = product_price p \<and> (item_id i, item_qty i) \<in> set c"
proof -
  from assms obtain l where l: "l \<in> set (cartItemsWithDetails c)"
    and i: "i = \<lparr>item_id = line_id l, item_name = line_name l, item_qty = line_qty l,
                 item_price = line_price l\<rparr>"
    by (auto simp: newOrder_def cartTotals_def Let_def)
  from items_lines [OF l] obtain p q
    where "p \<in> set PRODUCTS" "(product_id p, q) \<in> set c" "l = catalogue_line p q"
    by blast
  with i show ?thesis
    by (intro bexI [of _ p]) (simp_all add: catalogue_line_def)
qed

lemma newOrder_total:
  "order_total (newOrder e (cartTotals c))
     = sum_list (map (\<lambda>i. item_price i * item_qty i) (order_items (newOrder e (cartTotals c))))"
proof -
  have "\<forall>l \<in> set (cartItemsWithDetails c). lineTotal l = line_price l * line_qty l"
  proof
    fix l assume "l \<in> set (cartItemsWithDetails c)"
    from items_lines [OF this] obtain p q where "l = catalogue_line p q"
      by blast
    then show "lineTotal l = line_price l * line_qty l"
      by (simp add: catalogue_line_def)
  qed
  then have "map lineTotal (cartItemsWithDetails c)
      = map (\<lambda>l. line_price l * line_qty l) (cartItemsWithDetails c)"
    by simp
  then have s: "sum_list (map lineTotal (cartItemsWithDetails c))
      = sum_list (map (\<lambda>l. line_price l * line_qty l) (cartItemsWithDetails c))"
    by (rule arg_cong)
  show ?thesis
    by (simp add: newOrder_def cartTotals_def Let_def foldl_lineTotal comp_def s)
qed

lemma catalogue_ids_distinct: "distinct (map product_id PRODUCTS)"
  by code_simp

text \<open>
  Claim C10 (order self-consistency).  The order that a successful submission puts in
  front of the user's list has a total equal to the sum of price times quantity over its
  items; each item has the identifier, name and price of a catalogue product and the
  quantity of the cart entry with that identifier at submission time; the items are
  exactly the cart entries with catalogue identifiers, in the cart's order.  Catalogue
  identifiers are pairwise distinct, so ``that product'' is determined.
\<close>

theorem placed_order_consistent:
  "(fst (checkoutForm_submit e s) = OrderPlaced \<longrightarrow>
      (\<exists>order'. loadOrders (snd (checkoutForm_submit e s)) = order' # loadOrders s
         \<and> order_total order'
             = sum_list (map (\<lambda>i. item_price i * item_qty i) (order_items order'))
         \<and> (\<forall>i \<in> set (order_items order').
               \<exists>p \<in> set PRODUCTS. item_id i = product_id p \<and> item_name i = product_name p
                 \<and> item_price i = product_price p \<and> (item_id i, item_qty i) \<in> set (cart s))
         \<and> (distinct (map fst (cart s)) \<longrightarrow>
               (\<forall>i \<in> set (order_items order'). map_of (cart s) (item_id i) = Some (item_qty i)))
         \<and> map (\<lambda>i. (item_id i, item_qty i)) (order_items order')
             = filter (\<lambda>(i, q). i \<in> product_id ` set PRODUCTS) (cart s)))
   \<and> distinct (map product_id PRODUCTS)"
proof (intro conjI impI)
  assume placed: "fst (checkoutForm_submit e s) = OrderPlaced"
  let ?o = "newOrder e (cartTotals (cart s))"
  have m: "\<forall>i \<in> set (order_items ?o).
      \<exists>p \<in> set PRODUCTS. item_id i = product_id p \<and> item_name i = product_name p
        \<and> item_price i = product_price p \<and> (item_id i, item_qty i) \<in> set (cart s)"
    using newOrder_item by blast
  have d: "distinct (map fst (cart s)) \<longrightarrow>
      (\<forall>i \<in> set (order_items ?o). map_of (cart s) (item_id i) = Some (item_qty i))"
  proof (intro impI ballI)
    fix i assume "distinct (map fst (cart s))" "i \<in> set (order_items ?o)"
    with newOrder_item [of i e "cart s"] show "map_of (cart s) (item_id i) = Some (item_qty i)"
      by auto
  qed
  show "\<exists>order'. loadOrders (snd (checkoutForm_submit e s)) = order' # loadOrders s
         \<and> order_total order'
             = sum_list (map (\<lambda>i. item_price i * item_qty i) (order_items order'))
         \<and> (\<forall>i \<in> set (order_items order').
               \<exists>p \<in> set PRODUCTS. item_id i = product_id p \<and> item_name i = product_name p
                 \<and> item_price i = product_price p \<and> (item_id i, item_qty i) \<in> set (cart s))
         \<and> (distinct (map fst (cart s)) \<longrightarrow>
               (\<forall>i \<in> set (order_items order'). map_of (cart s) (item_id i) = Some (item_qty i)))
         \<and> map (\<lambda>i. (item_id i, item_qty i)) (order_items order')
             = filter (\<lambda>(i, q). i \<in> product_id ` set PRODUCTS) (cart s)"
    using placed_orders [OF placed] newOrder_total [of e "cart s"] m d newOrder_items [of e "cart s"]
    by (intro exI [of _ ?o] conjI)
next
  show "distinct (map product_id PRODUCTS)"
    by (rule catalogue_ids_distinct)
qed


lemma sample_order:
  "order_total (newOrder sampleSubmission (cartTotals [(''p1'', 2), (''p4'', 1)])) = 9997"
  "map (\<lambda>i. (item_id i, item_qty i, item_price i))
     (order_items (newOrder sampleSubmission (cartTotals [(''p1'', 2), (''p4'', 1)])))
     = [(''p1'', 2, 3999), (''p4'', 1, 1999)]"
  "ship_name (order_shipping (newOrder sampleSubmission (cartTotals [(''p1'', 2), (''p4'', 1)])))
     = ''Ada Lovelace''"
  by code_simp+

theorem placed_order_consistent_witness:
  "fst (checkoutForm_submit sampleSubmission shopperState) = OrderPlaced
   \<and> hd (loadOrders (snd (checkoutForm_submit sampleSubmission shopperState)))
       = newOrder sampleSubmission (cartTotals [(''p1'', 2), (''p4'', 1)])
   \<and> order_total (hd (loadOrders (snd (checkoutForm_submit sampleSubmission shopperState))))
       = sum_list (map (\<lambda>i. item_price i * item_qty i)
           (order_items (hd (loadOrders (snd (checkoutForm_submit sampleSubmission shopperState))))))
   \<and> order_total (newOrder sampleSubmission (cartTotals [(''p1'', 2), (''p4'', 1)])) = 9997
   \<and> map (\<lambda>i. (item_id i, item_qty i, item_price i))
        (order_items (newOrder sampleSubmission (cartTotals [(''p1'', 2), (''p4'', 1)])))
       = [(''p1'', 2, 3999), (''p4'', 1, 1999)]"
proof -
  have p: "fst (checkoutForm_submit sampleSubmission shopperState) = OrderPlaced"
    using shopper_submittable by (simp add: submit_placed_iff)
  from placed_order_consistent [of sampleSubmission shopperState] p
  obtain order' where o: "loadOrders (snd (checkoutForm_submit sampleSubmission shopperState))
        = order' # loadOrders shopperState"
    and t: "order_total order'
        = sum_list (map (\<lambda>i. item_price i * item_qty i) (order_items order'))"
    by blast
  from o have h: "hd (loadOrders (snd (checkoutForm_submit sampleSubmission shopperState))) = order'"
    by simp
  from placed_orders [OF p] o
  have n: "order' = newOrder sampleSubmission (cartTotals [(''p1'', 2), (''p4'', 1)])"
    by (simp add: shopper_fields)
  from p h n t sample_order(1,2) show ?thesis
    by (intro conjI) simp_all
qed

subsection \<open>Further properties\<close>

text \<open>
  Orders without a user.  With nobody logged in, \<open>loadOrders\<close> answers the empty list and
  \<open>saveOrder\<close> changes nothing.
\<close>

theorem orders_need_user:
  "\<not> loggedIn s \<longrightarrow> loadOrders s = [] \<and> saveOrder order' s = s"
  by (simp add: loadOrders_def saveOrder_def Let_def)

theorem orders_need_user_witness:
  "\<not> loggedIn freshState \<and> loadOrders freshState = []
   \<and> saveOrder (newOrder sampleSubmission (cartTotals [(''p1'', 2), (''p4'', 1)])) freshState
       = freshState"
  using orders_need_user [of freshState "newOrder sampleSubmission (cartTotals [(''p1'', 2), (''p4'', 1)])"]
    fresh_not_loggedIn
  by simp

text \<open>
  Logging out.  \<open>logoutUser\<close> clears the current user in memory, stores \<^verbatim>\<open>null\<close> for it,
  and leaves the user directory and the cart as they are: the cart is not tied to a
  user.  Afterwards nobody is logged in.
\<close>

theorem logout_clears_identity:
  "currentUser (logoutUser s) = None
   \<and> stored_USER (localStorage (logoutUser s)) = Some None
   \<and> \<not> loggedIn (logoutUser s)
   \<and> users (logoutUser s) = users s
   \<and> cart (logoutUser s) = cart s
   \<and> stored_CART (localStorage (logoutUser s)) = stored_CART (localStorage s)
   \<and> stored_ORDERS (localStorage (logoutUser s)) = stored_ORDERS (localStorage s)"
  by (simp add: logoutUser_def loggedIn_def)

text \<open>
  Sanitised shipping fields.  \<open>sanitizeInput\<close> answers no control character, and answers
  its argument unchanged when that has none and neither starts nor ends with white
  space.
\<close>

lemma dropWhile_hd: "xs \<noteq> [] \<Longrightarrow> \<not> P (hd xs) \<Longrightarrow> dropWhile P xs = xs"
  by (cases xs) auto

lemma trim_clean:
  assumes "str = [] \<or> (\<not> isWhiteSpace (hd str) \<and> \<not> isWhiteSpace (last str))"
  shows "trim str = str"
proof (cases "str = []")
  case True
  then show ?thesis by (simp add: trim_def)
next
  case False
  with assms have h: "\<not> isWhiteSpace (hd str)" and l: "\<not> isWhiteSpace (hd (rev str))"
    by (simp_all add: hd_rev)
  from False h have 1: "dropWhile isWhiteSpace str = str"
    by (rule dropWhile_hd)
  from False l have "dropWhile isWhiteSpace (rev str) = rev str"
    by (intro dropWhile_hd) simp_all
  with 1 show ?thesis
    by (simp add: trim_def)
qed

theorem sanitizeInput_clean:
  "(\<forall>c \<in> set (sanitizeInput str). \<not> isControl c)
   \<and> ((\<forall>c \<in> set str. \<not> isControl c)
        \<and> (str = [] \<or> (\<not> isWhiteSpace (hd str) \<and> \<not> isWhiteSpace (last str)))
      \<longrightarrow> sanitizeInput str = str)"
proof (intro conjI impI)
  show "\<forall>c \<in> set (sanitizeInput str). \<not> isControl c"
    by (simp add: sanitizeInput_def)
next
  assume a: "(\<forall>c \<in> set str. \<not> isControl c)
        \<and> (str = [] \<or> (\<not> isWhiteSpace (hd str) \<and> \<not> isWhiteSpace (last str)))"
  then have "trim str = str"
    by (intro trim_clean) blast
  with a show "sanitizeInput str = str"
    by (simp add: sanitizeInput_def)
qed

lemma sanitize_examples:
  "sanitizeInput ('' Ada'' @ [CHR 0x07] @ '' Lovelace '' @ [CHR 0x0A]) = ''Ada Lovelace''"
  "sanitizeInput ''London'' = ''London''"
  "CHR ''A'' \<in> set (sanitizeInput ('' Ada'' @ [CHR 0x07] @ '' Lovelace '' @ [CHR 0x0A]))"
  "\<not> isControl CHR ''A''"
  by code_simp+


theorem sanitizeInput_clean_witness:
  "CHR ''A'' \<in> set (sanitizeInput ('' Ada'' @ [CHR 0x07] @ '' Lovelace '' @ [CHR 0x0A]))
   \<and> \<not> isControl CHR ''A''
   \<and> sanitizeInput ('' Ada'' @ [CHR 0x07] @ '' Lovelace '' @ [CHR 0x0A]) = ''Ada Lovelace''
   \<and> sanitizeInput ''London'' = ''London''"
proof -
  let ?raw = "'' Ada'' @ [CHR 0x07] @ '' Lovelace '' @ [CHR 0x0A]"
  note m = sanitize_examples(3)
  have "\<not> isControl CHR ''A''"
    by (rule bspec [OF sanitizeInput_clean [of ?raw, THEN conjunct1] m])
  moreover have "(\<forall>c \<in> set ''London''. \<not> isControl c)
      \<and> (''London'' = [] \<or> (\<not> isWhiteSpace (hd ''London'') \<and> \<not> isWhiteSpace (last ''London'')))"
    by code_simp
  then have "sanitizeInput ''London'' = ''London''"
    by (rule sanitizeInput_clean [of "''London''", THEN conjunct2, THEN mp])
  ultimately show ?thesis
    using m sanitize_examples(1) by (intro conjI)
qed

text \<open>
  Cart keys.  A cart whose identifiers are pairwise distinct, as the keys of an object
  are, keeps distinct identifiers under every sequence of calls.
\<close>

lemma exec_distinct:
  assumes "distinct (map fst (cart s))"
  shows "distinct (map fst (cart (exec c s)))"
proof -
  consider "cart (exec c s) = cart s" | "cart (exec c s) = []"
    | p where "c = AddToCart p" | p d where "c = UpdateCartItem p d"
    using exec_cart by blast
  then show ?thesis
  proof cases
    case 1 with assms show ?thesis by simp
  next
    case 2 then show ?thesis by simp
  next
    case 3 with assms show ?thesis
      by (simp add: addToCart_def Let_def distinct_update)
  next
    case 4 with assms show ?thesis
      by (simp add: updateCartItem_def Let_def distinct_update distinct_delete split: option.splits)
  qed
qed

theorem cart_keys_stay_distinct:
  "distinct (map fst (cart s)) \<longrightarrow> distinct (map fst (cart (run calls s)))"
proof (induction calls arbitrary: s)
  case Nil
  show ?case by simp
next
  case (Cons c calls)
  show ?case
  proof
    assume "distinct (map fst (cart s))"
    then have "distinct (map fst (cart (exec c s)))"
      by (rule exec_distinct)
    with Cons.IH [of "exec c s"] show "distinct (map fst (cart (run (c # calls) s)))"
      by simp
  qed
qed

theorem cart_keys_stay_distinct_witness:
  "distinct (map fst (cart shopperState))
   \<and> distinct (map fst (cart (run [AddToCart ''p2'', UpdateCartItem ''p1'' (- 2),
                                     UpdateCartItem ''p2'' 3] shopperState)))
   \<and> cart (run [AddToCart ''p2'', UpdateCartItem ''p1'' (- 2), UpdateCartItem ''p2'' 3] shopperState)
       = [(''p4'', 1), (''p2'', 4)]"
proof -
  have d: "distinct (map fst (cart shopperState))"
    by (simp add: shopper_fields)
  from cart_keys_stay_distinct [of shopperState
      "[AddToCart ''p2'', UpdateCartItem ''p1'' (- 2), UpdateCartItem ''p2'' 3]"] d
  have "distinct (map fst (cart (run [AddToCart ''p2'', UpdateCartItem ''p1'' (- 2),
                                     UpdateCartItem ''p2'' 3] shopperState)))"
    by (rule mp)
  with d shopper_after_cart_calls show ?thesis
    by (intro conjI)
qed

end
